theory Spec2Isabelle
  imports Complex_Main "HOL-Library.Word" "HOL-Library.Monad_Syntax"
begin

unbundle bit_operations_syntax

section \<open>Temporal value type\<close>

text \<open>
  The struct \<^verbatim>\<open>DateTime\<close> of \<^verbatim>\<open>DateTime.h\<close>: a 16-bit year, five 8-bit fields and
  the validity flag. A default-constructed value has every field zero and is invalid.
\<close>

type_synonym u8 = "8 word"
type_synonym u16 = "16 word"
type_synonym u32 = "32 word"
type_synonym u64 = "64 word"

record DateTime =
  year :: u16
  month :: u8
  day :: u8
  hour :: u8
  minute :: u8
  second :: u8
  valid :: bool

definition DateTime_default :: DateTime where
  "DateTime_default =
     \<lparr>year = 0, month = 0, day = 0, hour = 0, minute = 0, second = 0, valid = False\<rparr>"

text \<open>
  \<^verbatim>\<open>DateTime::toKey\<close>: every field is widened to 64 bits, shifted to its position and
  the six parts are combined with bitwise or.
\<close>

definition toKey :: "DateTime \<Rightarrow> u64" where
  "toKey d =
     push_bit 40 (ucast (year d)) OR push_bit 32 (ucast (month d)) OR
     push_bit 24 (ucast (day d)) OR push_bit 16 (ucast (hour d)) OR
     push_bit 8 (ucast (minute d)) OR ucast (second d)"

subsection \<open>Comparison through the packed key (src/ServiceRequest.cpp)\<close>

definition eq_key :: "DateTime \<Rightarrow> DateTime \<Rightarrow> bool" where
  "eq_key a b = (if valid a \<noteq> valid b then False else toKey a = toKey b)"

definition less_key :: "DateTime \<Rightarrow> DateTime \<Rightarrow> bool" where
  "less_key a b =
     (if \<not> valid a \<and> \<not> valid b then False
      else if \<not> valid a then True
      else if \<not> valid b then False
      else toKey a < toKey b)"

definition le_key :: "DateTime \<Rightarrow> DateTime \<Rightarrow> bool" where
  "le_key a b = (\<not> less_key b a)"

definition ge_key :: "DateTime \<Rightarrow> DateTime \<Rightarrow> bool" where
  "ge_key a b = (\<not> less_key a b)"

subsection \<open>Comparison field by field (single_thread/ServiceRequest.cpp)\<close>

definition eq_fields :: "DateTime \<Rightarrow> DateTime \<Rightarrow> bool" where
  "eq_fields a b =
     (if valid a \<noteq> valid b then False
      else year a = year b \<and> month a = month b \<and> day a = day b \<and>
           hour a = hour b \<and> minute a = minute b \<and> second a = second b)"

definition less_fields :: "DateTime \<Rightarrow> DateTime \<Rightarrow> bool" where
  "less_fields a b =
     (if \<not> valid a \<and> \<not> valid b then False
      else if \<not> valid a then True
      else if \<not> valid b then False
      else if year a \<noteq> year b then year a < year b
      else if month a \<noteq> month b then month a < month b
      else if day a \<noteq> day b then day a < day b
      else if hour a \<noteq> hour b then hour a < hour b
      else if minute a \<noteq> minute b then minute a < minute b
      else second a < second b)"

definition le_fields :: "DateTime \<Rightarrow> DateTime \<Rightarrow> bool" where
  "le_fields a b = (\<not> less_fields b a)"

definition ge_fields :: "DateTime \<Rightarrow> DateTime \<Rightarrow> bool" where
  "ge_fields a b = (\<not> less_fields a b)"

text \<open>The number the packed key denotes, used to relate the two comparisons.\<close>

definition key_nat :: "DateTime \<Rightarrow> nat" where
  "key_nat d =
     unat (year d) * 2 ^ 40 + unat (month d) * 2 ^ 32 + unat (day d) * 2 ^ 24 +
     unat (hour d) * 2 ^ 16 + unat (minute d) * 2 ^ 8 + unat (second d)"

section \<open>The C library functions the code calls\<close>

text \<open>
  The code converts text with \<^verbatim>\<open>strtoul\<close>, \<^verbatim>\<open>strtol\<close>, \<^verbatim>\<open>strtoull\<close>, \<^verbatim>\<open>strtod\<close> and
  \<^verbatim>\<open>sscanf\<close>. They are modelled as ISO C specifies them for base 10 in the C locale, on
  the LP64 platform the sources target (they include \<^verbatim>\<open>mach/mach.h\<close>): \<^verbatim>\<open>long\<close>,
  \<^verbatim>\<open>unsigned long\<close> and \<^verbatim>\<open>unsigned long long\<close> are 64 bits wide, \<^verbatim>\<open>unsigned\<close> is 32.
\<close>

abbreviation DQ :: char where
  "DQ \<equiv> CHR 0x22"

definition isspace :: "char \<Rightarrow> bool" where
  "isspace c = (c = CHR '' '' \<or> (9 \<le> (of_char c :: nat) \<and> (of_char c :: nat) \<le> 13))"

definition isdigit :: "char \<Rightarrow> bool" where
  "isdigit c = (48 \<le> (of_char c :: nat) \<and> (of_char c :: nat) \<le> 57)"

definition digit_val :: "char \<Rightarrow> nat" where
  "digit_val c = of_char c - 48"

text \<open>\<^verbatim>\<open>std::string::c_str\<close> read as a C string: the characters before the first NUL.\<close>

definition c_str :: "string \<Rightarrow> string" where
  "c_str s = takeWhile (\<lambda>c. c \<noteq> CHR 0x00) s"

fun digits_value :: "nat \<Rightarrow> string \<Rightarrow> nat" where
  "digits_value acc [] = acc"
| "digits_value acc (c # cs) = digits_value (acc * 10 + digit_val c) cs"

definition scan_sign :: "string \<Rightarrow> bool \<times> string" where
  "scan_sign s =
     (case s of
        [] \<Rightarrow> (False, [])
      | c # t \<Rightarrow> if c = CHR ''-'' then (True, t) else if c = CHR ''+'' then (False, t)
                 else (False, s))"

text \<open>
  The subject sequence of the \<^verbatim>\<open>strtol\<close> family: optional white space, an optional
  sign, then decimal digits. The result is the sign, the magnitude the digits denote and the
  number of characters consumed; \<open>None\<close> when there is no digit, in which case no
  conversion is performed.
\<close>

definition scan_int :: "string \<Rightarrow> (bool \<times> nat \<times> nat) option" where
  "scan_int s =
     (let s1 = dropWhile isspace s;
          (neg, s2) = scan_sign s1;
          ds = takeWhile isdigit s2
      in if ds = [] then None
         else Some (neg, digits_value 0 ds, length s - length s2 + length ds))"

text \<open>
  The value \<^verbatim>\<open>strtoul\<close> returns for a sign and a magnitude: \<^verbatim>\<open>ULONG_MAX\<close> when the
  magnitude is not representable, otherwise the magnitude, negated in the unsigned type
  after a minus sign.
\<close>

definition ulong_value :: "bool \<Rightarrow> nat \<Rightarrow> u64" where
  "ulong_value neg m =
     (if 2 ^ 64 \<le> m then - 1
      else if neg then - word_of_nat m
      else word_of_nat m)"

text \<open>
  The value \<^verbatim>\<open>strtol\<close> returns: \<^verbatim>\<open>LONG_MIN\<close> or \<^verbatim>\<open>LONG_MAX\<close> when the number is not
  representable in a 64-bit signed integer, otherwise the number.
\<close>

definition long_value :: "bool \<Rightarrow> nat \<Rightarrow> 64 word" where
  "long_value neg m =
     (if neg then (if 2 ^ 63 < m then word_of_int (- (2 ^ 63)) else - word_of_nat m)
      else (if 2 ^ 63 \<le> m then word_of_int (2 ^ 63 - 1) else word_of_nat m))"

text \<open>
  Each function returns the value and the distance of the end pointer from the start of
  the string (0 when no conversion is performed).
\<close>

definition strtoul :: "string \<Rightarrow> u64 \<times> nat" where
  "strtoul s =
     (case scan_int s of None \<Rightarrow> (0, 0) | Some (neg, m, n) \<Rightarrow> (ulong_value neg m, n))"

definition strtoull :: "string \<Rightarrow> u64 \<times> nat" where
  "strtoull s =
     (case scan_int s of None \<Rightarrow> (0, 0) | Some (neg, m, n) \<Rightarrow> (ulong_value neg m, n))"

definition strtol :: "string \<Rightarrow> 64 word \<times> nat" where
  "strtol s =
     (case scan_int s of None \<Rightarrow> (0, 0) | Some (neg, m, n) \<Rightarrow> (long_value neg m, n))"

text \<open>
  The subject sequence of \<^verbatim>\<open>strtod\<close>: optional white space, an optional sign, then a
  decimal number (digits with an optional point and at least one digit, and an optional
  exponent \<^verbatim>\<open>e\<close> with an optional sign and digits), or \<^verbatim>\<open>0x\<close> and a hexadecimal
  number of the same shape with an optional exponent \<^verbatim>\<open>p\<close>, or \<^verbatim>\<open>inf\<close> or
  \<^verbatim>\<open>infinity\<close>, or \<^verbatim>\<open>nan\<close> with an optional parenthesised sequence of letters,
  digits and underscores; letters in either case. \<open>ieq c l\<close> compares a character
  with a lower-case letter ignoring case. \<open>strtod_end\<close> is the distance of the end
  pointer from the start of the string, 0 when nothing is converted.
\<close>

definition ieq :: "char \<Rightarrow> char \<Rightarrow> bool" where
  "ieq c l = (c = l \<or> (of_char c :: nat) + 32 = of_char l)"













section \<open>Numeric field conversions (ServiceRequest.cpp)\<close>

text \<open>
  Signed targets are words read with \<open>sint\<close>; a \<^verbatim>\<open>static_cast\<close> to a narrower integer
  keeps the low bits (\<open>ucast\<close>).
\<close>

definition parseZip :: "string \<Rightarrow> u32" where
  "parseZip s =
     (if s = [] then 0
      else let (v, e) = strtoul (c_str s) in if e = 0 then 0 else ucast v)"

definition parseInt16 :: "string \<Rightarrow> 16 word" where
  "parseInt16 s =
     (if s = [] then - 1
      else let (v, e) = strtol (c_str s) in if e = 0 then - 1 else ucast v)"

definition parseU64 :: "string \<Rightarrow> u64" where
  "parseU64 s =
     (if s = [] then 0
      else let (v, e) = strtoull (c_str s) in if e = 0 then 0 else ucast v)"

definition parseInt32 :: "string \<Rightarrow> 32 word" where
  "parseInt32 s =
     (if s = [] then 0
      else let (v, e) = strtol (c_str s) in if e = 0 then 0 else ucast v)"


text \<open>
  A \<^verbatim>\<open>double\<close> is a value of a type \<open>'d\<close> of which only \<open>0\<close> and the comparison
  \<open>\<le>\<close> are used, and \<^verbatim>\<open>strtod\<close> is a parameter returning the value and the number
  of characters consumed.
\<close>

definition parseDouble :: "(string \<Rightarrow> 'd \<times> nat) \<Rightarrow> string \<Rightarrow> 'd::zero" where
  "parseDouble strtod s =
     (if s = [] then 0
      else let (v, e) = strtod (c_str s) in if e = 0 then 0 else v)"

section \<open>Parsing and rendering a temporal value (DateTime.cpp)\<close>

definition to24h :: "u8 \<Rightarrow> bool \<Rightarrow> u8" where
  "to24h h isPM =
     (if \<not> isPM then (if h = 12 then 0 else h)
      else (if h = 12 then 12 else h + 12))"

text \<open>
  The directives of the format \<^verbatim>\<open>"%u/%u/%u %u:%u:%u %2s"\<close>. \<^verbatim>\<open>%u\<close> skips white space
  and reads an optionally signed decimal number as \<^verbatim>\<open>strtoul\<close> does, stored in an
  \<^verbatim>\<open>unsigned\<close>; an ordinary character must match the next input character; white space
  in the format skips any white space; \<^verbatim>\<open>%2s\<close> skips white space and reads one or two
  characters that are not white space. Each returns the rest of the input, or \<open>None\<close>
  when the directive fails.
\<close>

definition scan_u :: "string \<Rightarrow> (u32 \<times> string) option" where
  "scan_u s =
     (case scan_int s of
        None \<Rightarrow> None
      | Some (neg, m, n) \<Rightarrow> Some (ucast (ulong_value neg m), drop n s))"

definition scan_lit :: "char \<Rightarrow> string \<Rightarrow> string option" where
  "scan_lit c s = (case s of [] \<Rightarrow> None | x # t \<Rightarrow> if x = c then Some t else None)"

definition scan_ws :: "string \<Rightarrow> string" where
  "scan_ws s = dropWhile isspace s"

definition scan_s2 :: "string \<Rightarrow> (string \<times> string) option" where
  "scan_s2 s =
     (let s1 = dropWhile isspace s;
          tok = take 2 (takeWhile (\<lambda>c. \<not> isspace c) s1)
      in if tok = [] then None else Some (tok, drop (length tok) s1))"

text \<open>
  The call of \<^verbatim>\<open>sscanf\<close> in \<^verbatim>\<open>DateTime::parse\<close>. The result is \<open>Some\<close> of the seven
  converted items exactly when \<^verbatim>\<open>sscanf\<close> returns 7; the code discards everything else.
\<close>

definition sscanf_dt :: "string \<Rightarrow> (u32 \<times> u32 \<times> u32 \<times> u32 \<times> u32 \<times> u32 \<times> string) option" where
  "sscanf_dt s =
     do {
       (mm, s1) \<leftarrow> scan_u s;
       s2 \<leftarrow> scan_lit (CHR ''/'') s1;
       (dd, s3) \<leftarrow> scan_u s2;
       s4 \<leftarrow> scan_lit (CHR ''/'') s3;
       (yyyy, s5) \<leftarrow> scan_u s4;
       (hh, s6) \<leftarrow> scan_u (scan_ws s5);
       s7 \<leftarrow> scan_lit (CHR '':'') s6;
       (mi, s8) \<leftarrow> scan_u s7;
       s9 \<leftarrow> scan_lit (CHR '':'') s8;
       (ss, s10) \<leftarrow> scan_u s9;
       (ampm, s11) \<leftarrow> scan_s2 (scan_ws s10);
       Some (mm, dd, yyyy, hh, mi, ss, ampm)
     }"

text \<open>The first character of the buffer \<^verbatim>\<open>ampm\<close>, which is zero-initialised.\<close>

definition ampm0 :: "string \<Rightarrow> char" where
  "ampm0 tok = (case tok of [] \<Rightarrow> CHR 0x00 | c # _ \<Rightarrow> c)"

definition parse :: "string \<Rightarrow> DateTime" where
  "parse s =
     (if length s < 11 then DateTime_default
      else case sscanf_dt (c_str s) of
        None \<Rightarrow> DateTime_default
      | Some (mm, dd, yyyy, hh, mi, ss, ampm) \<Rightarrow>
          \<lparr>year = ucast yyyy, month = ucast mm, day = ucast dd,
           hour = to24h (ucast hh) (ampm0 ampm = CHR ''P'' \<or> ampm0 ampm = CHR ''p''),
           minute = ucast mi, second = ucast ss, valid = True\<rparr>)"

text \<open>
  \<^verbatim>\<open>snprintf\<close> with \<^verbatim>\<open>%0wu\<close>: the decimal digits of the number, padded with zeros on the
  left to width \<open>w\<close>. The buffer of \<^verbatim>\<open>toString\<close> holds 20 bytes, so the output is cut after
  19 characters.
\<close>

definition digit_char :: "nat \<Rightarrow> char" where
  "digit_char n = char_of (48 + n)"

function dec :: "nat \<Rightarrow> string" where
  "dec n = (if n < 10 then [digit_char n] else dec (n div 10) @ [digit_char (n mod 10)])"
  by pat_completeness auto
termination
  by (relation "measure id") auto

declare dec.simps [simp del]

definition fmt_u :: "nat \<Rightarrow> nat \<Rightarrow> string" where
  "fmt_u w n = replicate (w - length (dec n)) (CHR ''0'') @ dec n"

definition toString :: "DateTime \<Rightarrow> string" where
  "toString d =
     (if \<not> valid d then ''(invalid)''
      else take 19
        (fmt_u 4 (unat (year d)) @ ''-'' @ fmt_u 2 (unat (month d)) @ ''-'' @
         fmt_u 2 (unat (day d)) @ '' '' @ fmt_u 2 (unat (hour d)) @ '':'' @
         fmt_u 2 (unat (minute d)) @ '':'' @ fmt_u 2 (unat (second d))))"

text \<open>
  The spec's grammar \<^verbatim>\<open>MM/DD/YYYY HH:MM:SS AM|PM\<close> and its canonical rendering
  \<^verbatim>\<open>YYYY-MM-DD HH:MM:SS\<close>, written from the spec's words to state the round trip:
  zero-padded fields of two and four digits, and the 24-hour rule (12 AM is 0, 12 PM is
  12, other AM hours unchanged, other PM hours plus 12).
\<close>

definition two_digits :: "nat \<Rightarrow> string" where
  "two_digits n = [digit_char (n div 10), digit_char (n mod 10)]"

definition four_digits :: "nat \<Rightarrow> string" where
  "four_digits n =
     [digit_char (n div 1000), digit_char (n div 100 mod 10), digit_char (n div 10 mod 10),
      digit_char (n mod 10)]"

definition hour24 :: "nat \<Rightarrow> bool \<Rightarrow> nat" where
  "hour24 h pm = (if pm then (if h = 12 then 12 else h + 12) else (if h = 12 then 0 else h))"

definition grammar_text :: "nat \<Rightarrow> nat \<Rightarrow> nat \<Rightarrow> nat \<Rightarrow> nat \<Rightarrow> nat \<Rightarrow> bool \<Rightarrow> string" where
  "grammar_text mo dd y h mi ss pm =
     two_digits mo @ ''/'' @ two_digits dd @ ''/'' @ four_digits y @ '' '' @
     two_digits h @ '':'' @ two_digits mi @ '':'' @ two_digits ss @ '' '' @
     (if pm then ''PM'' else ''AM'')"

definition canonical_text :: "nat \<Rightarrow> nat \<Rightarrow> nat \<Rightarrow> nat \<Rightarrow> nat \<Rightarrow> nat \<Rightarrow> string" where
  "canonical_text y mo dd h mi ss =
     four_digits y @ ''-'' @ two_digits mo @ ''-'' @ two_digits dd @ '' '' @
     two_digits h @ '':'' @ two_digits mi @ '':'' @ two_digits ss"

section \<open>The record type (ServiceRequest.h)\<close>

record 'd ServiceRequest =
  uniqueKey :: u64
  createdDate :: DateTime
  closedDate :: DateTime
  dueDate :: DateTime
  resolutionUpdatedDate :: DateTime
  agency :: string
  agencyName :: string
  complaintType :: string
  descriptor :: string
  additionalDetails :: string
  locationType :: string
  incidentZip :: u32
  incidentAddress :: string
  streetName :: string
  crossStreet1 :: string
  crossStreet2 :: string
  intersectionStreet1 :: string
  intersectionStreet2 :: string
  addressType :: string
  city :: string
  landmark :: string
  facilityType :: string
  status :: string
  resolutionDescription :: string
  communityBoard :: string
  councilDistrict :: "16 word"
  policePrecinct :: string
  bbl :: u64
  borough :: string
  xCoordinate :: "32 word"
  yCoordinate :: "32 word"
  latitude :: 'd
  longitude :: 'd
  channelType :: string
  parkFacilityName :: string
  parkBorough :: string
  vehicleType :: string
  taxiCompanyBorough :: string
  taxiPickupLocation :: string
  bridgeHighwayName :: string
  bridgeHighwayDirection :: string
  roadRamp :: string
  bridgeHighwaySegment :: string

text \<open>A default-constructed record, with the member initialisers of the struct.\<close>

definition ServiceRequest_default :: "('d::zero) ServiceRequest" where
  "ServiceRequest_default =
     \<lparr>uniqueKey = 0, createdDate = DateTime_default, closedDate = DateTime_default,
      dueDate = DateTime_default, resolutionUpdatedDate = DateTime_default,
      agency = [], agencyName = [], complaintType = [], descriptor = [],
      additionalDetails = [], locationType = [], incidentZip = 0, incidentAddress = [],
      streetName = [], crossStreet1 = [], crossStreet2 = [], intersectionStreet1 = [],
      intersectionStreet2 = [], addressType = [], city = [], landmark = [],
      facilityType = [], status = [], resolutionDescription = [], communityBoard = [],
      councilDistrict = - 1, policePrecinct = [], bbl = 0, borough = [],
      xCoordinate = 0, yCoordinate = 0, latitude = 0, longitude = 0, channelType = [],
      parkFacilityName = [], parkBorough = [], vehicleType = [], taxiCompanyBorough = [],
      taxiPickupLocation = [], bridgeHighwayName = [], bridgeHighwayDirection = [],
      roadRamp = [], bridgeHighwaySegment = []\<rparr>"

text \<open>
  \<^verbatim>\<open>ServiceRequest::fromFields\<close> assigns the members of the object it is called on; the
  model takes the object and returns the outcome with the object afterwards. The early
  return leaves the object as it was.
\<close>

definition fromFields ::
  "(string \<Rightarrow> 'd \<times> nat) \<Rightarrow> ('d::zero) ServiceRequest \<Rightarrow> string list
     \<Rightarrow> bool \<times> 'd ServiceRequest" where
  "fromFields strtod r f =
     (if length f < 43 then (False, r)
      else (True,
        r\<lparr>uniqueKey := parseU64 (f ! 0),
          createdDate := parse (f ! 1),
          closedDate := parse (f ! 2),
          agency := f ! 3,
          agencyName := f ! 4,
          complaintType := f ! 5,
          descriptor := f ! 6,
          additionalDetails := f ! 7,
          locationType := f ! 8,
          incidentZip := parseZip (f ! 9),
          incidentAddress := f ! 10,
          streetName := f ! 11,
          crossStreet1 := f ! 12,
          crossStreet2 := f ! 13,
          intersectionStreet1 := f ! 14,
          intersectionStreet2 := f ! 15,
          addressType := f ! 16,
          city := f ! 17,
          landmark := f ! 18,
          facilityType := f ! 19,
          status := f ! 20,
          dueDate := parse (f ! 21),
          resolutionDescription := f ! 22,
          resolutionUpdatedDate := parse (f ! 23),
          communityBoard := f ! 24,
          councilDistrict := parseInt16 (f ! 25),
          policePrecinct := f ! 26,
          bbl := parseU64 (f ! 27),
          borough := f ! 28,
          xCoordinate := parseInt32 (f ! 29),
          yCoordinate := parseInt32 (f ! 30),
          channelType := f ! 31,
          parkFacilityName := f ! 32,
          parkBorough := f ! 33,
          vehicleType := f ! 34,
          taxiCompanyBorough := f ! 35,
          taxiPickupLocation := f ! 36,
          bridgeHighwayName := f ! 37,
          bridgeHighwayDirection := f ! 38,
          roadRamp := f ! 39,
          bridgeHighwaySegment := f ! 40,
          latitude := parseDouble strtod (f ! 41),
          longitude := parseDouble strtod (f ! 42)\<rparr>))"

section \<open>Line decoder\<close>

text \<open>
  The loop of \<^verbatim>\<open>CsvReader::parseLine\<close> over the characters of the line. The index \<open>i\<close>
  of the source is the position of the first remaining character; the look-ahead
  \<^verbatim>\<open>line[i + 1]\<close> is the head of the rest, and \<^verbatim>\<open>++i\<close> drops it. \<^verbatim>\<open>current\<close> and
  \<^verbatim>\<open>fields\<close> grow at the end.
\<close>

fun parseLine_loop :: "string \<Rightarrow> bool \<Rightarrow> string \<Rightarrow> string list \<Rightarrow> string list" where
  "parseLine_loop [] inQuotes current flds = flds @ [current]"
| "parseLine_loop (c # rest) inQuotes current flds =
     (if inQuotes then
        (if c = DQ then
           (case rest of
              [] \<Rightarrow> parseLine_loop rest False current flds
            | d # rest' \<Rightarrow>
                if d = DQ then parseLine_loop rest' True (current @ [DQ]) flds
                else parseLine_loop rest False current flds)
         else parseLine_loop rest True (current @ [c]) flds)
      else
        (if c = DQ then parseLine_loop rest True current flds
         else if c = CHR '','' then parseLine_loop rest False [] (flds @ [current])
         else if c = CHR 0x0D then parseLine_loop rest False current flds
         else parseLine_loop rest False (current @ [c]) flds))"

definition parseLine :: "string \<Rightarrow> string list" where
  "parseLine line = parseLine_loop line False [] []"

text \<open>
  \<^verbatim>\<open>NYC311Analyzer::parseCSVLine\<close> (and the free function of the same name) runs the same
  automaton and passes every emitted field through \<^verbatim>\<open>cleanString\<close>.
\<close>

definition cleanString :: "string \<Rightarrow> string" where
  "cleanString str =
     (let cleaned = (if str \<noteq> [] \<and> hd str = DQ then tl str else str)
      in if cleaned \<noteq> [] \<and> last cleaned = DQ then butlast cleaned else cleaned)"

fun parseCSVLine_loop :: "string \<Rightarrow> bool \<Rightarrow> string \<Rightarrow> string list \<Rightarrow> string list" where
  "parseCSVLine_loop [] inQuotes current flds = flds @ [cleanString current]"
| "parseCSVLine_loop (c # rest) inQuotes current flds =
     (if inQuotes then
        (if c = DQ then
           (case rest of
              [] \<Rightarrow> parseCSVLine_loop rest False current flds
            | d # rest' \<Rightarrow>
                if d = DQ then parseCSVLine_loop rest' True (current @ [DQ]) flds
                else parseCSVLine_loop rest False current flds)
         else parseCSVLine_loop rest True (current @ [c]) flds)
      else
        (if c = DQ then parseCSVLine_loop rest True current flds
         else if c = CHR '','' then
           parseCSVLine_loop rest False [] (flds @ [cleanString current])
         else if c = CHR 0x0D then parseCSVLine_loop rest False current flds
         else parseCSVLine_loop rest False (current @ [c]) flds))"

definition parseCSVLine :: "string \<Rightarrow> string list" where
  "parseCSVLine line = parseCSVLine_loop line False [] []"





section \<open>Bulk loaders\<close>

text \<open>
  A file is the list of its lines, as \<^verbatim>\<open>std::getline\<close> delivers them; the header is the
  first. \<^verbatim>\<open>CsvReader::open\<close> discards the header; \<^verbatim>\<open>CsvReader::readAll\<close> then runs the
  loop below with the counters \<^verbatim>\<open>total_\<close> and \<^verbatim>\<open>skipped_\<close>, the reused object \<^verbatim>\<open>rec\<close>
  and the output vector.
\<close>

record 'd readState =
  rec :: "'d ServiceRequest"
  out :: "'d ServiceRequest list"
  totalRows :: nat
  skippedRows :: nat

fun readAll_loop ::
  "(string \<Rightarrow> 'd \<times> nat) \<Rightarrow> string list \<Rightarrow> ('d::zero) readState \<Rightarrow> 'd readState" where
  "readAll_loop strtod [] st = st"
| "readAll_loop strtod (line # rest) st =
     (if line = [] then readAll_loop strtod rest st
      else
        let st1 = st\<lparr>totalRows := totalRows st + 1\<rparr>;
            flds = parseLine line;
            (ok, r) = fromFields strtod (rec st1) flds
        in if \<not> ok then readAll_loop strtod rest (st1\<lparr>rec := r, skippedRows := skippedRows st1 + 1\<rparr>)
           else readAll_loop strtod rest (st1\<lparr>rec := r, out := out st1 @ [r]\<rparr>))"

text \<open>
  \<^verbatim>\<open>open\<close> followed by \<^verbatim>\<open>readAll\<close> on an empty vector, as \<^verbatim>\<open>DataStore::load\<close> calls
  them. A file that cannot be opened is \<open>None\<close> and yields no record.
\<close>

definition readAll :: "(string \<Rightarrow> 'd \<times> nat) \<Rightarrow> string list option \<Rightarrow> ('d::zero) readState" where
  "readAll strtod file =
     (let st0 = \<lparr>rec = ServiceRequest_default, out = [], totalRows = 0, skippedRows = 0\<rparr>
      in case file of
           None \<Rightarrow> st0
         | Some ls \<Rightarrow> readAll_loop strtod (drop 1 ls) st0)"

text \<open>
  The free function \<^verbatim>\<open>loadData\<close> with the constant \<^verbatim>\<open>RECORD_LIMIT\<close>. Its loop has no
  test for an empty line, counts every line in \<^verbatim>\<open>lineCount\<close> and leaves the loop with
  \<^verbatim>\<open>break\<close> once \<^verbatim>\<open>validRecords\<close> reaches the limit.
\<close>

definition RECORD_LIMIT :: nat where
  "RECORD_LIMIT = 16000000"

record 'd loadState =
  records :: "'d ServiceRequest list"
  lineCount :: nat
  validRecords :: nat

fun loadData_loop ::
  "(string \<Rightarrow> 'd \<times> nat) \<Rightarrow> string list \<Rightarrow> ('d::zero) loadState \<Rightarrow> 'd loadState" where
  "loadData_loop strtod [] st = st"
| "loadData_loop strtod (line # rest) st =
     (let st1 = st\<lparr>lineCount := lineCount st + 1\<rparr>;
          flds = parseCSVLine line;
          (ok, req) = fromFields strtod ServiceRequest_default flds
      in if ok then
           (let st2 = st1\<lparr>records := records st1 @ [req], validRecords := validRecords st1 + 1\<rparr>
            in if RECORD_LIMIT \<le> validRecords st2 then st2
               else loadData_loop strtod rest st2)
         else loadData_loop strtod rest st1)"

definition loadData :: "(string \<Rightarrow> 'd \<times> nat) \<Rightarrow> string list option \<Rightarrow> ('d::zero) loadState" where
  "loadData strtod file =
     (let st0 = \<lparr>records = [], lineCount = 0, validRecords = 0\<rparr>
      in case file of
           None \<Rightarrow> st0
         | Some ls \<Rightarrow>
             loadData_loop strtod (drop 1 ls)
               (if ls = [] then st0 else st0\<lparr>lineCount := 1\<rparr>))"

text \<open>
  What a loader does with one line, to state what a whole load yields: whether the decoded
  line is accepted by \<^verbatim>\<open>fromFields\<close> and the record it gives, for each of the two
  decoders.
\<close>

definition accepted :: "string \<Rightarrow> bool" where
  "accepted l = (43 \<le> length (parseLine l))"

definition recordOf :: "(string \<Rightarrow> 'd \<times> nat) \<Rightarrow> string \<Rightarrow> ('d::zero) ServiceRequest" where
  "recordOf strtod l = snd (fromFields strtod ServiceRequest_default (parseLine l))"

definition acceptedCSV :: "string \<Rightarrow> bool" where
  "acceptedCSV l = (43 \<le> length (parseCSVLine l))"

definition recordOfCSV :: "(string \<Rightarrow> 'd \<times> nat) \<Rightarrow> string \<Rightarrow> ('d::zero) ServiceRequest" where
  "recordOfCSV strtod l = snd (fromFields strtod ServiceRequest_default (parseCSVLine l))"

section \<open>Query engine\<close>

text \<open>
  \<^verbatim>\<open>DataStore::filterByCreatedDateRange\<close> and \<^verbatim>\<open>DataStore::filterByLatLonBox\<close> return
  pointers into the store; a pointer is the position of the record in the store. They use
  the comparison through the packed key.
\<close>

definition filterByCreatedDateRange ::
  "'d ServiceRequest list \<Rightarrow> DateTime \<Rightarrow> DateTime \<Rightarrow> nat list" where
  "filterByCreatedDateRange recs start end' =
     filter (\<lambda>i. valid (createdDate (recs ! i)) \<and>
                 ge_key (createdDate (recs ! i)) start \<and>
                 le_key (createdDate (recs ! i)) end')
       [0 ..< length recs]"

definition filterByLatLonBox ::
  "('d::ord) ServiceRequest list \<Rightarrow> 'd \<Rightarrow> 'd \<Rightarrow> 'd \<Rightarrow> 'd \<Rightarrow> nat list" where
  "filterByLatLonBox recs minLat maxLat minLon maxLon =
     filter (\<lambda>i. latitude (recs ! i) \<ge> minLat \<and> latitude (recs ! i) \<le> maxLat \<and>
                 longitude (recs ! i) \<ge> minLon \<and> longitude (recs ! i) \<le> maxLon)
       [0 ..< length recs]"

text \<open>
  The free function \<^verbatim>\<open>filterByCreatedDateRange\<close> over the global \<^verbatim>\<open>g_records\<close> returns
  copies of the records and is built with the field-by-field comparison.
\<close>

definition filterByCreatedDateRange_global ::
  "'d ServiceRequest list \<Rightarrow> DateTime \<Rightarrow> DateTime \<Rightarrow> 'd ServiceRequest list" where
  "filterByCreatedDateRange_global g_records start end' =
     filter (\<lambda>r. ge_fields (createdDate r) start \<and> le_fields (createdDate r) end') g_records"

section \<open>Ordering of temporal values\<close>

lemma pack_plus:
  fixes y :: u16 and mo d h mi s :: u8
  shows "(push_bit 40 (ucast y) OR push_bit 32 (ucast mo) OR
          push_bit 24 (ucast d) OR push_bit 16 (ucast h) OR
          push_bit 8 (ucast mi) OR (ucast s :: u64))
        = push_bit 40 (ucast y) + (push_bit 32 (ucast mo) +
            (push_bit 24 (ucast d) + (push_bit 16 (ucast h) +
            (push_bit 8 (ucast mi) + (ucast s :: u64)))))"
proof -
  have e1: "push_bit 8 (ucast mi) + (ucast s :: u64) = push_bit 8 (ucast mi) OR ucast s"
    by (rule disjunctive_add_eq_or, rule bit_word_eqI)
       (auto simp: bit_simps dest: bit_imp_le_length)
  have e2: "push_bit 16 (ucast h) + (push_bit 8 (ucast mi) OR (ucast s :: u64))
      = push_bit 16 (ucast h) OR (push_bit 8 (ucast mi) OR ucast s)"
    by (rule disjunctive_add_eq_or, rule bit_word_eqI)
       (auto simp: bit_simps dest: bit_imp_le_length)
  have e3: "push_bit 24 (ucast d) +
        (push_bit 16 (ucast h) OR (push_bit 8 (ucast mi) OR (ucast s :: u64)))
      = push_bit 24 (ucast d) OR
        (push_bit 16 (ucast h) OR (push_bit 8 (ucast mi) OR ucast s))"
    by (rule disjunctive_add_eq_or, rule bit_word_eqI)
       (auto simp: bit_simps dest: bit_imp_le_length)
  have e4: "push_bit 32 (ucast mo) + (push_bit 24 (ucast d) OR
        (push_bit 16 (ucast h) OR (push_bit 8 (ucast mi) OR (ucast s :: u64))))
      = push_bit 32 (ucast mo) OR (push_bit 24 (ucast d) OR
        (push_bit 16 (ucast h) OR (push_bit 8 (ucast mi) OR ucast s)))"
    by (rule disjunctive_add_eq_or, rule bit_word_eqI)
       (auto simp: bit_simps dest: bit_imp_le_length)
  have e5: "push_bit 40 (ucast y) + (push_bit 32 (ucast mo) OR (push_bit 24 (ucast d) OR
        (push_bit 16 (ucast h) OR (push_bit 8 (ucast mi) OR (ucast s :: u64)))))
      = push_bit 40 (ucast y) OR (push_bit 32 (ucast mo) OR (push_bit 24 (ucast d) OR
        (push_bit 16 (ucast h) OR (push_bit 8 (ucast mi) OR ucast s))))"
    by (rule disjunctive_add_eq_or, rule bit_word_eqI)
       (auto simp: bit_simps dest: bit_imp_le_length)
  show ?thesis
    by (simp only: e1 e2 e3 e4 e5)
qed

lemma field_bounds:
  "unat (year d) < 2 ^ 16" "unat (month d) < 2 ^ 8" "unat (day d) < 2 ^ 8"
  "unat (hour d) < 2 ^ 8" "unat (minute d) < 2 ^ 8" "unat (second d) < 2 ^ 8"
  using unsigned_less [of "year d"] unsigned_less [of "month d"] unsigned_less [of "day d"]
    unsigned_less [of "hour d"] unsigned_less [of "minute d"] unsigned_less [of "second d"]
  by simp_all

lemma key_nat_less: "key_nat d < 2 ^ 64"
  using field_bounds [of d] by (simp add: key_nat_def)

lemma toKey_of_nat: "toKey d = word_of_nat (key_nat d)"
proof -
  have "toKey d = push_bit 40 (ucast (year d)) + (push_bit 32 (ucast (month d)) +
            (push_bit 24 (ucast (day d)) + (push_bit 16 (ucast (hour d)) +
            (push_bit 8 (ucast (minute d)) + (ucast (second d) :: u64)))))"
    by (simp only: toKey_def pack_plus)
  also have "\<dots> = word_of_nat (key_nat d)"
    by (simp add: push_bit_eq_mult key_nat_def of_nat_unat)
  finally show ?thesis .
qed

lemma unat_toKey: "unat (toKey d) = key_nat d"
  using key_nat_less [of d] by (simp add: toKey_of_nat unat_of_nat)

lemma key_nat_lex:
  "(key_nat a < key_nat b) =
     (if year a \<noteq> year b then year a < year b
      else if month a \<noteq> month b then month a < month b
      else if day a \<noteq> day b then day a < day b
      else if hour a \<noteq> hour b then hour a < hour b
      else if minute a \<noteq> minute b then minute a < minute b
      else second a < second b)"
  using field_bounds [of a] field_bounds [of b]
  by (auto simp: key_nat_def word_less_nat_alt word_unat_eq_iff)

lemma toKey_less_iff: "(toKey a < toKey b) = (key_nat a < key_nat b)"
  by (simp add: word_less_nat_alt unat_toKey)

lemma less_key_eq_less_fields: "less_key a b = less_fields a b"
  by (simp only: less_key_def less_fields_def toKey_less_iff key_nat_lex)

lemma toKey_eq_iff:
  "(toKey a = toKey b) =
     (year a = year b \<and> month a = month b \<and> day a = day b \<and>
      hour a = hour b \<and> minute a = minute b \<and> second a = second b)"
proof
  assume "toKey a = toKey b"
  then have "\<not> key_nat a < key_nat b" "\<not> key_nat b < key_nat a"
    by (simp_all add: unat_toKey [symmetric])
  then show "year a = year b \<and> month a = month b \<and> day a = day b \<and>
      hour a = hour b \<and> minute a = minute b \<and> second a = second b"
    unfolding key_nat_lex by (auto split: if_splits)
next
  assume "year a = year b \<and> month a = month b \<and> day a = day b \<and>
      hour a = hour b \<and> minute a = minute b \<and> second a = second b"
  then show "toKey a = toKey b" by (simp add: toKey_def)
qed

lemma eq_key_eq_eq_fields: "eq_key a b = eq_fields a b"
  by (simp only: eq_key_def eq_fields_def toKey_eq_iff)

lemma less_key_irrefl: "\<not> less_key a a"
  by (simp add: less_key_def)

lemma less_key_trans: "less_key a b \<Longrightarrow> less_key b c \<Longrightarrow> less_key a c"
  by (auto simp: less_key_def split: if_splits)

lemma less_key_total:
  assumes "valid a" "valid b"
  shows "less_key a b \<or> a = b \<or> less_key b a"
proof (cases "toKey a = toKey b")
  case True
  then have "a = b" using assms by (simp add: toKey_eq_iff)
  then show ?thesis by simp
next
  case False
  then show ?thesis using assms by (auto simp: less_key_def)
qed

lemma invalid_less_key: "\<not> valid i \<Longrightarrow> valid v \<Longrightarrow> less_key i v \<and> \<not> less_key v i"
  by (simp add: less_key_def)

text \<open>
  Claim C4. The comparison through the packed 64-bit key and the field-by-field comparison
  give the same results on every pair of valid values (equality and less-than); each is a
  strict total order on the valid values (irreflexive, transitive, and any two different
  valid values are ordered one way or the other); and every invalid value is less than
  every valid value, never the other way round.
\<close>

theorem C4_comparisons_agree:
  "(valid a \<and> valid b \<longrightarrow>
      less_key a b = less_fields a b \<and> eq_key a b = eq_fields a b \<and>
      (eq_key a b \<longleftrightarrow> a = b) \<and>
      (less_key a b \<or> a = b \<or> less_key b a) \<and>
      (less_fields a b \<or> a = b \<or> less_fields b a)) \<and>
   \<not> less_key a a \<and> \<not> less_fields a a \<and>
   (valid a \<and> valid b \<and> valid c \<and> less_key a b \<and> less_key b c \<longrightarrow> less_key a c) \<and>
   (valid a \<and> valid b \<and> valid c \<and> less_fields a b \<and> less_fields b c
      \<longrightarrow> less_fields a c) \<and>
   (\<not> valid i \<and> valid a \<longrightarrow>
      less_key i a \<and> less_fields i a \<and> \<not> less_key a i \<and> \<not> less_fields a i)"
proof -
  have eqv: "valid a \<and> valid b \<longrightarrow> (eq_key a b \<longleftrightarrow> a = b)"
    by (auto simp: eq_key_def toKey_eq_iff)
  show ?thesis
    using less_key_total [of a b] less_key_irrefl [of a] less_key_trans [of a b c]
      invalid_less_key [of i a] eqv
    by (simp only: less_key_eq_less_fields [symmetric] eq_key_eq_eq_fields [symmetric]) blast
qed

theorem C4_comparisons_agree_witness:
  "(let a = \<lparr>year = 2015, month = 1, day = 31, hour = 23, minute = 0, second = 0, valid = True\<rparr>;
        b = \<lparr>year = 2015, month = 2, day = 1, hour = 0, minute = 0, second = 0, valid = True\<rparr>;
        c = \<lparr>year = 2016, month = 1, day = 1, hour = 0, minute = 0, second = 0, valid = True\<rparr>;
        i = DateTime_default
    in valid a \<and> valid b \<and> valid c \<and> \<not> valid i \<and>
       less_key a b \<and> less_fields a b \<and> less_key b c \<and> less_fields b c \<and>
       less_key a c \<and> less_fields a c \<and> \<not> eq_key a b \<and> \<not> eq_fields a b \<and>
       less_key i a \<and> less_fields i a \<and> \<not> less_key a i \<and> \<not> less_fields a i)"
  using C4_comparisons_agree
    [of "\<lparr>year = 2015, month = 1, day = 31, hour = 23, minute = 0, second = 0, valid = True\<rparr>"
        "\<lparr>year = 2015, month = 2, day = 1, hour = 0, minute = 0, second = 0, valid = True\<rparr>"
        "\<lparr>year = 2016, month = 1, day = 1, hour = 0, minute = 0, second = 0, valid = True\<rparr>"
        DateTime_default]
  by (simp add: Let_def DateTime_default_def less_fields_def eq_fields_def less_key_def eq_key_def toKey_def)

section \<open>Query engine: date range and bounding box\<close>

lemma filterByCreatedDateRange_exact:
  "set (filterByCreatedDateRange recs start end') =
     {i. i < length recs \<and> valid (createdDate (recs ! i)) \<and>
         le_key start (createdDate (recs ! i)) \<and> le_key (createdDate (recs ! i)) end'}"
  by (auto simp: filterByCreatedDateRange_def le_key_def ge_key_def)

lemma filterByCreatedDateRange_order:
  "sorted (filterByCreatedDateRange recs start end') \<and>
   distinct (filterByCreatedDateRange recs start end')"
  by (simp add: filterByCreatedDateRange_def sorted_wrt_filter)

lemma filterByCreatedDateRange_never_invalid:
  "i \<in> set (filterByCreatedDateRange recs start end') \<Longrightarrow> valid (createdDate (recs ! i))"
  by (simp add: filterByCreatedDateRange_def)

lemma parse_empty: "parse [] = DateTime_default"
  by (simp add: parse_def)

text \<open>
  Claim C1. The date-range filter returns exactly the records whose created date is valid
  and lies in the inclusive range, and never a record with an invalid created date. The
  filter of \<^verbatim>\<open>DataStore\<close> does (the three lemmas above); the free function over
  \<^verbatim>\<open>g_records\<close> has no validity test: on a store holding one record with an invalid
  created date, with an invalid start bound (the result of parsing the empty string), it
  returns that record.
\<close>

theorem C1_global_filter_keeps_invalid:
  "\<not> valid (createdDate (ServiceRequest_default :: real ServiceRequest)) \<and>
   \<not> valid (parse []) \<and>
   filterByCreatedDateRange_global [ServiceRequest_default :: real ServiceRequest]
     (parse []) (parse []) = [ServiceRequest_default]"
  by (simp add: filterByCreatedDateRange_global_def parse_empty ServiceRequest_default_def
      DateTime_default_def ge_fields_def le_fields_def less_fields_def)

text \<open>
  Claim C8. The bounding-box query has no special case for absent coordinates: a stored
  record whose latitude and longitude are both 0 is in the result of every box with
  \<open>minLat \<le> 0 \<le> maxLat\<close> and \<open>minLon \<le> 0 \<le> maxLon\<close>.
\<close>

theorem C8_latlon_box_includes_absent:
  fixes recs :: "('d::{zero,ord}) ServiceRequest list"
  assumes "i < length recs" "latitude (recs ! i) = 0" "longitude (recs ! i) = 0"
    and "minLat \<le> 0" "0 \<le> maxLat" "minLon \<le> 0" "0 \<le> maxLon"
  shows "i \<in> set (filterByLatLonBox recs minLat maxLat minLon maxLon)"
  using assms by (simp add: filterByLatLonBox_def)

theorem C8_latlon_box_includes_absent_witness:
  "0 < length [ServiceRequest_default :: real ServiceRequest] \<and>
   latitude ([ServiceRequest_default :: real ServiceRequest] ! 0) = 0 \<and>
   longitude ([ServiceRequest_default :: real ServiceRequest] ! 0) = 0 \<and>
   (- 1 :: real) \<le> 0 \<and> (0 :: real) \<le> 1 \<and>
   0 \<in> set (filterByLatLonBox [ServiceRequest_default :: real ServiceRequest] (- 1) 1 (- 1) 1)"
  using C8_latlon_box_includes_absent
    [of 0 "[ServiceRequest_default :: real ServiceRequest]" "- 1" 1 "- 1" 1]
  by (simp add: ServiceRequest_default_def)

section \<open>Line decoder: the emitted fields\<close>











section \<open>Record population\<close>

lemma nth_take43: "i < 43 \<Longrightarrow> take 43 f ! i = f ! i"
  by simp

lemma fromFields_rejects: "length f \<le> 42 \<Longrightarrow> fromFields sd r f = (False, r)"
  by (simp add: fromFields_def)

lemma fromFields_take43: "43 \<le> length f \<Longrightarrow> fromFields sd r (take 43 f) = fromFields sd r f"
  by (simp add: fromFields_def)

lemma readAll_loop_rejected_row:
  "line \<noteq> [] \<Longrightarrow> length (parseLine line) \<le> 42 \<Longrightarrow>
     readAll_loop sd [line] st = st\<lparr>totalRows := totalRows st + 1, skippedRows := skippedRows st + 1\<rparr>"
  by (simp add: fromFields_rejects Let_def)

lemma fromFields_columns:
  "43 \<le> length f \<Longrightarrow>
      (let q = snd (fromFields sd r f) in
         uniqueKey q = parseU64 (f ! 0) \<and>
         createdDate q = parse (f ! 1) \<and>
         closedDate q = parse (f ! 2) \<and>
         agency q = f ! 3 \<and>
         agencyName q = f ! 4 \<and>
         complaintType q = f ! 5 \<and>
         descriptor q = f ! 6 \<and>
         additionalDetails q = f ! 7 \<and>
         locationType q = f ! 8 \<and>
         incidentZip q = parseZip (f ! 9) \<and>
         incidentAddress q = f ! 10 \<and>
         streetName q = f ! 11 \<and>
         crossStreet1 q = f ! 12 \<and>
         crossStreet2 q = f ! 13 \<and>
         intersectionStreet1 q = f ! 14 \<and>
         intersectionStreet2 q = f ! 15 \<and>
         addressType q = f ! 16 \<and>
         city q = f ! 17 \<and>
         landmark q = f ! 18 \<and>
         facilityType q = f ! 19 \<and>
         status q = f ! 20 \<and>
         dueDate q = parse (f ! 21) \<and>
         resolutionDescription q = f ! 22 \<and>
         resolutionUpdatedDate q = parse (f ! 23) \<and>
         communityBoard q = f ! 24 \<and>
         councilDistrict q = parseInt16 (f ! 25) \<and>
         policePrecinct q = f ! 26 \<and>
         bbl q = parseU64 (f ! 27) \<and>
         borough q = f ! 28 \<and>
         xCoordinate q = parseInt32 (f ! 29) \<and>
         yCoordinate q = parseInt32 (f ! 30) \<and>
         channelType q = f ! 31 \<and>
         parkFacilityName q = f ! 32 \<and>
         parkBorough q = f ! 33 \<and>
         vehicleType q = f ! 34 \<and>
         taxiCompanyBorough q = f ! 35 \<and>
         taxiPickupLocation q = f ! 36 \<and>
         bridgeHighwayName q = f ! 37 \<and>
         bridgeHighwayDirection q = f ! 38 \<and>
         roadRamp q = f ! 39 \<and>
         bridgeHighwaySegment q = f ! 40 \<and>
         latitude q = parseDouble sd (f ! 41) \<and>
         longitude q = parseDouble sd (f ! 42))"
  by (simp add: fromFields_def Let_def)

text \<open>
  Claim C3. A vector of at most 42 fields is rejected whatever the fields hold, the object
  is left as it was, and the loader stores nothing for such a row; a vector of at least 43
  fields is accepted, every column from 0 to 42 goes to its fixed attribute, and the result
  does not depend on column 43 or any later one.
\<close>

theorem C3_fromFields_column_count:
  "(length g \<le> 42 \<longrightarrow> fromFields sd r g = (False, r)) \<and>
   (line \<noteq> [] \<and> length (parseLine line) \<le> 42 \<longrightarrow>
      out (readAll_loop sd [line] st) = out st \<and> rec (readAll_loop sd [line] st) = rec st) \<and>
   (43 \<le> length f \<longrightarrow>
      fst (fromFields sd r f) = True \<and>
      fromFields sd r (take 43 f) = fromFields sd r f \<and>
      (let q = snd (fromFields sd r f) in
         uniqueKey q = parseU64 (f ! 0) \<and>
         createdDate q = parse (f ! 1) \<and>
         closedDate q = parse (f ! 2) \<and>
         agency q = f ! 3 \<and>
         agencyName q = f ! 4 \<and>
         complaintType q = f ! 5 \<and>
         descriptor q = f ! 6 \<and>
         additionalDetails q = f ! 7 \<and>
         locationType q = f ! 8 \<and>
         incidentZip q = parseZip (f ! 9) \<and>
         incidentAddress q = f ! 10 \<and>
         streetName q = f ! 11 \<and>
         crossStreet1 q = f ! 12 \<and>
         crossStreet2 q = f ! 13 \<and>
         intersectionStreet1 q = f ! 14 \<and>
         intersectionStreet2 q = f ! 15 \<and>
         addressType q = f ! 16 \<and>
         city q = f ! 17 \<and>
         landmark q = f ! 18 \<and>
         facilityType q = f ! 19 \<and>
         status q = f ! 20 \<and>
         dueDate q = parse (f ! 21) \<and>
         resolutionDescription q = f ! 22 \<and>
         resolutionUpdatedDate q = parse (f ! 23) \<and>
         communityBoard q = f ! 24 \<and>
         councilDistrict q = parseInt16 (f ! 25) \<and>
         policePrecinct q = f ! 26 \<and>
         bbl q = parseU64 (f ! 27) \<and>
         borough q = f ! 28 \<and>
         xCoordinate q = parseInt32 (f ! 29) \<and>
         yCoordinate q = parseInt32 (f ! 30) \<and>
         channelType q = f ! 31 \<and>
         parkFacilityName q = f ! 32 \<and>
         parkBorough q = f ! 33 \<and>
         vehicleType q = f ! 34 \<and>
         taxiCompanyBorough q = f ! 35 \<and>
         taxiPickupLocation q = f ! 36 \<and>
         bridgeHighwayName q = f ! 37 \<and>
         bridgeHighwayDirection q = f ! 38 \<and>
         roadRamp q = f ! 39 \<and>
         bridgeHighwaySegment q = f ! 40 \<and>
         latitude q = parseDouble sd (f ! 41) \<and>
         longitude q = parseDouble sd (f ! 42)))"
proof -
  have a: "length g \<le> 42 \<longrightarrow> fromFields sd r g = (False, r)"
    by (simp add: fromFields_rejects)
  have b: "line \<noteq> [] \<and> length (parseLine line) \<le> 42 \<longrightarrow>
      out (readAll_loop sd [line] st) = out st \<and> rec (readAll_loop sd [line] st) = rec st"
    by (auto simp: readAll_loop_rejected_row simp del: readAll_loop.simps)
  have c: "43 \<le> length f \<longrightarrow> fromFields sd r (take 43 f) = fromFields sd r f"
    by (simp add: fromFields_take43)
  have d: "43 \<le> length f \<longrightarrow> fst (fromFields sd r f) = True"
    by (simp add: fromFields_def)
  show ?thesis
    using a b c d fromFields_columns [of f sd r] by blast
qed


theorem C3_fromFields_column_count_witness:
  "length (replicate 42 ''x'') \<le> 42 \<and>
   fromFields (\<lambda>s. (0 :: real, 0)) ServiceRequest_default (replicate 42 ''x'')
     = (False, ServiceRequest_default) \<and>
   ''a,b'' \<noteq> [] \<and> length (parseLine ''a,b'') \<le> 42 \<and>
   out (readAll_loop (\<lambda>s. (0 :: real, 0)) [''a,b'']
          \<lparr>rec = ServiceRequest_default, out = [], totalRows = 0, skippedRows = 0\<rparr>) = [] \<and>
   43 \<le> length (replicate 44 ''NYPD'') \<and>
   fst (fromFields (\<lambda>s. (0 :: real, 0)) ServiceRequest_default (replicate 44 ''NYPD'')) \<and>
   agency (snd (fromFields (\<lambda>s. (0 :: real, 0)) ServiceRequest_default
                  (replicate 44 ''NYPD''))) = ''NYPD''"
  using C3_fromFields_column_count
    [of "replicate 42 ''x''" "\<lambda>s. (0 :: real, 0)" ServiceRequest_default "''a,b''"
        "\<lparr>rec = ServiceRequest_default, out = [], totalRows = 0, skippedRows = 0\<rparr>"
        "replicate 44 ''NYPD''"]
  by (simp add: parseLine_def Let_def del: readAll_loop.simps)

section \<open>Numeric conversions\<close>

lemma scan_int_consumes: "scan_int s = Some (neg, m, n) \<Longrightarrow> 0 < n"
  by (auto simp: scan_int_def Let_def split: prod.splits if_splits)




lemma ucast_down_of_int32: "(ucast (word_of_int v :: 64 word) :: 32 word) = word_of_int v"
  by (simp add: ucast_down_wi is_down)















lemma ieq_cases: "ieq c l \<Longrightarrow> c = l \<or> (of_char c :: nat) + 32 = of_char l"
  by (simp add: ieq_def)






lemmas scan_eval = scan_int_def scan_sign_def isspace_def isdigit_def digit_val_def c_str_def
  Let_def



section \<open>The temporal parser\<close>

lemma length_scan_sign: "length (snd (scan_sign s)) \<le> length s"
  by (simp add: scan_sign_def split: list.splits)

lemma scan_int_within: "scan_int s = Some (neg, m, n) \<Longrightarrow> n \<le> length s"
proof -
  assume h: "scan_int s = Some (neg, m, n)"
  let ?s2 = "snd (scan_sign (dropWhile isspace s))"
  have n: "n = length s - length ?s2 + length (takeWhile isdigit ?s2)"
    using h by (auto simp: scan_int_def Let_def split: prod.splits if_splits)
  have a: "length ?s2 \<le> length s"
    using length_scan_sign [of "dropWhile isspace s"] length_dropWhile_le [of isspace s]
    by simp
  have b: "length (takeWhile isdigit ?s2) \<le> length ?s2"
    by (rule length_takeWhile_le)
  show ?thesis using n a b by simp
qed

lemma scan_u_shorter: "scan_u s = Some (v, r) \<Longrightarrow> length r < length s"
  using scan_int_consumes scan_int_within
  by (fastforce simp: scan_u_def split: option.splits)

lemma scan_lit_shorter: "scan_lit c s = Some r \<Longrightarrow> length r < length s"
  by (auto simp: scan_lit_def split: list.splits if_splits)

lemma scan_ws_le: "length (scan_ws s) \<le> length s"
  by (simp add: scan_ws_def length_dropWhile_le)

lemma scan_s2_nonempty: "scan_s2 s = Some (tok, r) \<Longrightarrow> 0 < length s"
  by (auto simp: scan_s2_def Let_def split: if_splits)

lemma scan_s2_token:
  "scan_s2 s = Some (tok, r) \<Longrightarrow>
     1 \<le> length tok \<and> length tok \<le> 2 \<and> (\<forall>c \<in> set tok. \<not> isspace c)"
  by (auto simp: scan_s2_def Let_def Suc_le_eq split: if_splits
      dest!: in_set_takeD set_takeWhileD)

lemma sscanf_dt_length:
  assumes "sscanf_dt s = Some r"
  shows "11 \<le> length s"
proof -
  from assms obtain mm s1 s2 dd s3 s4 yyyy s5 hh s6 s7 mi s8 s9 ss s10 tok s11 where
    h: "scan_u s = Some (mm, s1)" "scan_lit (CHR ''/'') s1 = Some s2"
       "scan_u s2 = Some (dd, s3)" "scan_lit (CHR ''/'') s3 = Some s4"
       "scan_u s4 = Some (yyyy, s5)" "scan_u (scan_ws s5) = Some (hh, s6)"
       "scan_lit (CHR '':'') s6 = Some s7" "scan_u s7 = Some (mi, s8)"
       "scan_lit (CHR '':'') s8 = Some s9" "scan_u s9 = Some (ss, s10)"
       "scan_s2 (scan_ws s10) = Some (tok, s11)"
    unfolding sscanf_dt_def
    by (auto simp: bind_eq_Some_conv split: prod.splits)
  show ?thesis
    using scan_u_shorter [OF h(1)] scan_lit_shorter [OF h(2)] scan_u_shorter [OF h(3)]
      scan_lit_shorter [OF h(4)] scan_u_shorter [OF h(5)] scan_u_shorter [OF h(6)]
      scan_lit_shorter [OF h(7)] scan_u_shorter [OF h(8)] scan_lit_shorter [OF h(9)]
      scan_u_shorter [OF h(10)] scan_s2_nonempty [OF h(11)]
      scan_ws_le [of s5] scan_ws_le [of s10]
    by linarith
qed

lemma sscanf_dt_token:
  assumes "sscanf_dt s = Some (mm, dd, yyyy, hh, mi, ss, tok)"
  shows "1 \<le> length tok \<and> length tok \<le> 2 \<and> (\<forall>c \<in> set tok. \<not> isspace c)"
proof -
  from assms obtain s10 s11 where "scan_s2 (scan_ws s10) = Some (tok, s11)"
    unfolding sscanf_dt_def
    by (auto simp: bind_eq_Some_conv split: prod.splits)
  then show ?thesis by (rule scan_s2_token)
qed

lemma length_c_str: "length (c_str s) \<le> length s"
  by (simp add: c_str_def length_takeWhile_le)

lemma parse_scanned:
  assumes "sscanf_dt (c_str s) = Some (mm, dd, yyyy, hh, mi, ss, tok)"
  shows "parse s =
     \<lparr>year = ucast yyyy, month = ucast mm, day = ucast dd,
      hour = to24h (ucast hh) (ampm0 tok = CHR ''P'' \<or> ampm0 tok = CHR ''p''),
      minute = ucast mi, second = ucast ss, valid = True\<rparr>"
proof -
  have "11 \<le> length s"
    using sscanf_dt_length [OF assms] length_c_str [of s] by simp
  then show ?thesis
    using assms by (simp add: parse_def)
qed

lemma parse_invalid_default: "\<not> valid (parse s) \<Longrightarrow> parse s = DateTime_default"
  by (auto simp: parse_def split: if_splits option.splits)

text \<open>
  Claim C9. The parser checks neither the ranges of the fields nor the meridiem token:
  whenever the scan extracts six numbers and a token (of one or two characters, none of them
  white space), the result is marked valid and holds the six numbers cut to their field
  widths, whatever they are; and a token whose first character is neither \<^verbatim>\<open>P\<close> nor
  \<^verbatim>\<open>p\<close> is treated as AM (hour 12 becomes 0, any other hour is kept).
\<close>

theorem C9_parse_validates_nothing:
  "sscanf_dt (c_str s) = Some (mm, dd, yyyy, hh, mi, ss, tok) \<longrightarrow>
     1 \<le> length tok \<and> length tok \<le> 2 \<and> (\<forall>c \<in> set tok. \<not> isspace c) \<and>
     valid (parse s) \<and>
     month (parse s) = ucast mm \<and> day (parse s) = ucast dd \<and> year (parse s) = ucast yyyy \<and>
     minute (parse s) = ucast mi \<and> second (parse s) = ucast ss \<and>
     hour (parse s) = to24h (ucast hh) (ampm0 tok = CHR ''P'' \<or> ampm0 tok = CHR ''p'') \<and>
     (ampm0 tok \<noteq> CHR ''P'' \<and> ampm0 tok \<noteq> CHR ''p'' \<longrightarrow>
        hour (parse s) = (if (ucast hh :: u8) = 12 then 0 else ucast hh))"
proof
  assume h: "sscanf_dt (c_str s) = Some (mm, dd, yyyy, hh, mi, ss, tok)"
  show "1 \<le> length tok \<and> length tok \<le> 2 \<and> (\<forall>c \<in> set tok. \<not> isspace c) \<and>
     valid (parse s) \<and>
     month (parse s) = ucast mm \<and> day (parse s) = ucast dd \<and> year (parse s) = ucast yyyy \<and>
     minute (parse s) = ucast mi \<and> second (parse s) = ucast ss \<and>
     hour (parse s) = to24h (ucast hh) (ampm0 tok = CHR ''P'' \<or> ampm0 tok = CHR ''p'') \<and>
     (ampm0 tok \<noteq> CHR ''P'' \<and> ampm0 tok \<noteq> CHR ''p'' \<longrightarrow>
        hour (parse s) = (if (ucast hh :: u8) = 12 then 0 else ucast hh))"
    using sscanf_dt_token [OF h]
    by (simp add: parse_scanned [OF h] to24h_def)
qed

text \<open>
  Claim C10. Two invalid values produced by the parser are both the default value, with
  every field zero and packed key 0; they are equal under both equality operators and
  neither is less than the other under both less-than operators.
\<close>

theorem C10_invalid_parse_results_equal:
  "\<not> valid (parse s) \<and> \<not> valid (parse t) \<longrightarrow>
     parse s = DateTime_default \<and> parse t = DateTime_default \<and>
     toKey (parse s) = 0 \<and> toKey (parse t) = 0 \<and>
     eq_key (parse s) (parse t) \<and> eq_fields (parse s) (parse t) \<and>
     \<not> less_key (parse s) (parse t) \<and> \<not> less_key (parse t) (parse s) \<and>
     \<not> less_fields (parse s) (parse t) \<and> \<not> less_fields (parse t) (parse s)"
proof
  assume h: "\<not> valid (parse s) \<and> \<not> valid (parse t)"
  then have "parse s = DateTime_default" "parse t = DateTime_default"
    by (simp_all add: parse_invalid_default)
  then show "parse s = DateTime_default \<and> parse t = DateTime_default \<and>
     toKey (parse s) = 0 \<and> toKey (parse t) = 0 \<and>
     eq_key (parse s) (parse t) \<and> eq_fields (parse s) (parse t) \<and>
     \<not> less_key (parse s) (parse t) \<and> \<not> less_key (parse t) (parse s) \<and>
     \<not> less_fields (parse s) (parse t) \<and> \<not> less_fields (parse t) (parse s)"
    by (simp add: eq_key_def eq_fields_def less_key_def less_fields_def DateTime_default_def
        toKey_def)
qed


lemmas sscanf_eval = sscanf_dt_def scan_u_def scan_lit_def scan_ws_def scan_s2_def
  ulong_value_def

theorem C9_parse_validates_nothing_witness:
  "sscanf_dt (c_str ''13/32/2015 25:61:61 XM'') = Some (13, 32, 2015, 25, 61, 61, ''XM'') \<and>
   valid (parse ''13/32/2015 25:61:61 XM'') \<and>
   month (parse ''13/32/2015 25:61:61 XM'') = 13 \<and>
   day (parse ''13/32/2015 25:61:61 XM'') = 32 \<and>
   hour (parse ''13/32/2015 25:61:61 XM'') = 25 \<and>
   minute (parse ''13/32/2015 25:61:61 XM'') = 61 \<and>
   second (parse ''13/32/2015 25:61:61 XM'') = 61"
proof -
  have a: "sscanf_dt (c_str ''13/32/2015 25:61:61 XM'') = Some (13, 32, 2015, 25, 61, 61, ''XM'')"
    by (simp add: sscanf_eval scan_eval)
  show ?thesis
    using C9_parse_validates_nothing [of "''13/32/2015 25:61:61 XM''" 13 32 2015 25 61 61 "''XM''"]
    by (simp add: a ampm0_def to24h_def)
qed

theorem C10_invalid_parse_results_equal_witness:
  "\<not> valid (parse []) \<and> \<not> valid (parse ''not a date at all'') \<and>
   parse [] = parse ''not a date at all'' \<and>
   eq_key (parse []) (parse ''not a date at all'') \<and>
   eq_fields (parse []) (parse ''not a date at all'') \<and>
   \<not> less_key (parse []) (parse ''not a date at all'') \<and>
   \<not> less_fields (parse ''not a date at all'') (parse [])"
proof -
  have a: "\<not> valid (parse [])"
    by (simp add: parse_def DateTime_default_def)
  have b: "\<not> valid (parse ''not a date at all'')"
    by (simp add: parse_def DateTime_default_def sscanf_eval scan_eval)
  show ?thesis
    using C10_invalid_parse_results_equal [of "[]" "''not a date at all''"] a b
    by metis
qed

section \<open>Parsing and rendering round trip\<close>

lemma of_char_digit_char: "k < 10 \<Longrightarrow> (of_char (digit_char k) :: nat) = 48 + k"
  by (simp add: digit_char_def)

lemma digit_char_facts:
  assumes "k < 10"
  shows "isdigit (digit_char k)" "\<not> isspace (digit_char k)" "digit_val (digit_char k) = k"
    "digit_char k \<noteq> CHR ''-''" "digit_char k \<noteq> CHR ''+''" "digit_char k \<noteq> CHR 0x00"
proof -
  note e = of_char_digit_char [OF assms]
  show "isdigit (digit_char k)" using assms by (simp add: isdigit_def e)
  show "digit_val (digit_char k) = k" by (simp add: digit_val_def e)
  have ne: "digit_char k \<noteq> c" if "(of_char c :: nat) < 48" for c
    using that e by (metis add_lessD1 less_irrefl)
  show "digit_char k \<noteq> CHR ''-''" by (rule ne) simp
  show "digit_char k \<noteq> CHR ''+''" by (rule ne) simp
  show "digit_char k \<noteq> CHR 0x00" by (rule ne) simp
  have "digit_char k \<noteq> CHR '' ''" by (rule ne) simp
  then show "\<not> isspace (digit_char k)" by (simp add: isspace_def e)
qed

lemma not_digit_facts:
  "\<not> isdigit (CHR ''/'')" "\<not> isdigit (CHR '':'')" "\<not> isdigit (CHR '' '')" "isspace (CHR '' '')"
  "\<not> isspace (CHR ''A'')" "\<not> isspace (CHR ''P'')" "\<not> isspace (CHR ''M'')"
  by (simp_all add: isdigit_def isspace_def)

text \<open>Scanning a number written with two or four digits, followed by a character that is no digit.\<close>

lemma scan_int_two_digits:
  assumes "a < 10" "b < 10" "\<not> isdigit c"
  shows "scan_int (digit_char a # digit_char b # c # rest) = Some (False, a * 10 + b, 2)"
  using assms digit_char_facts [of a] digit_char_facts [of b]
  by (simp add: scan_int_def scan_sign_def Let_def)

lemma scan_int_two_digits_end:
  assumes "a < 10" "b < 10"
  shows "scan_int [digit_char a, digit_char b] = Some (False, a * 10 + b, 2)"
  using assms digit_char_facts [of a] digit_char_facts [of b]
  by (simp add: scan_int_def scan_sign_def Let_def)

lemma scan_int_four_digits:
  assumes "a < 10" "b < 10" "c < 10" "d < 10" "\<not> isdigit e"
  shows "scan_int (digit_char a # digit_char b # digit_char c # digit_char d # e # rest)
     = Some (False, ((a * 10 + b) * 10 + c) * 10 + d, 4)"
  using assms digit_char_facts [of a] digit_char_facts [of b] digit_char_facts [of c]
    digit_char_facts [of d]
  by (simp add: scan_int_def scan_sign_def Let_def)

lemma two_digits_value: "n div 10 * 10 + n mod 10 = (n :: nat)"
  by simp

lemma ucast_down_32_16: "(ucast (word_of_int v :: 32 word) :: 16 word) = word_of_int v"
  by (simp add: ucast_down_wi is_down)

lemma ucast_down_32_8: "(ucast (word_of_int v :: 32 word) :: 8 word) = word_of_int v"
  by (simp add: ucast_down_wi is_down)

lemma ucast_of_nat_64_32: "(ucast (word_of_nat n :: 64 word) :: 32 word) = word_of_nat n"
  using ucast_down_of_int32 [of "int n"] by simp

lemma ucast_of_nat_32_16: "(ucast (word_of_nat n :: 32 word) :: 16 word) = word_of_nat n"
  using ucast_down_32_16 [of "int n"] by simp

lemma ucast_of_nat_32_8: "(ucast (word_of_nat n :: 32 word) :: 8 word) = word_of_nat n"
  using ucast_down_32_8 [of "int n"] by simp

lemma four_digits_value:
  "((n div 1000 * 10 + n div 100 mod 10) * 10 + n div 10 mod 10) * 10 + n mod 10 = (n :: nat)"
proof -
  have a: "n div 1000 = n div 100 div 10" "n div 100 = n div 10 div 10"
    by (simp_all add: div_mult2_eq [symmetric])
  have "n div 1000 * 10 + n div 100 mod 10 = n div 100"
    unfolding a(1) by (rule div_mult_mod_eq)
  moreover have "n div 100 * 10 + n div 10 mod 10 = n div 10"
    unfolding a(2) by (rule div_mult_mod_eq)
  moreover have "n div 10 * 10 + n mod 10 = n"
    by (rule div_mult_mod_eq)
  ultimately show ?thesis by simp
qed

lemma scan_u_two_digits:
  assumes "n < 100" "\<not> isdigit c"
  shows "scan_u (two_digits n @ c # rest) = Some (word_of_nat n, c # rest)"
proof -
  have "n div 10 < 10" using assms by simp
  then have "scan_int (two_digits n @ c # rest) = Some (False, n, 2)"
    using scan_int_two_digits [of "n div 10" "n mod 10" c rest] assms
    by (simp add: two_digits_def)
  moreover have "n < 2 ^ 64" using assms by simp
  ultimately show ?thesis
    by (simp add: scan_u_def ulong_value_def two_digits_def ucast_of_nat_64_32)
qed

lemma scan_u_four_digits:
  assumes "n < 10000" "\<not> isdigit c"
  shows "scan_u (four_digits n @ c # rest) = Some (word_of_nat n, c # rest)"
proof -
  have "n div 1000 < 10" using assms by simp
  then have "scan_int (four_digits n @ c # rest) = Some (False, n, 4)"
    using scan_int_four_digits [of "n div 1000" "n div 100 mod 10" "n div 10 mod 10" "n mod 10" c rest]
      assms four_digits_value [of n]
    by (simp add: four_digits_def)
  moreover have "n < 2 ^ 64" using assms by simp
  ultimately show ?thesis
    by (simp add: scan_u_def ulong_value_def four_digits_def ucast_of_nat_64_32)
qed


lemma scan_u_two_digits_then_space:
  assumes "n < 100"
  shows "scan_u (two_digits n @ CHR '' '' # rest) = Some (word_of_nat n, CHR '' '' # rest)"
  using scan_u_two_digits [OF assms not_digit_facts(3)] .

lemma c_str_no_nul: "CHR 0x00 \<notin> set s \<Longrightarrow> c_str s = s"
  by (auto simp: c_str_def takeWhile_eq_all_conv)

lemma two_digits_no_nul:
  assumes "n < 100"
  shows "CHR 0x00 \<notin> set (two_digits n)"
proof -
  have "n div 10 < 10" "n mod 10 < 10" using assms by simp_all
  then show ?thesis
    using digit_char_facts(6) [of "n div 10"] digit_char_facts(6) [of "n mod 10"]
    by (auto simp: two_digits_def)
qed

lemma four_digits_no_nul:
  assumes "n < 10000"
  shows "CHR 0x00 \<notin> set (four_digits n)"
proof -
  have "n div 1000 < 10" "n div 100 mod 10 < 10" "n div 10 mod 10 < 10" "n mod 10 < 10"
    using assms by simp_all
  then show ?thesis
    using digit_char_facts(6) [of "n div 1000"] digit_char_facts(6) [of "n div 100 mod 10"]
      digit_char_facts(6) [of "n div 10 mod 10"] digit_char_facts(6) [of "n mod 10"]
    by (auto simp: four_digits_def)
qed

lemma two_digits_head:
  "n < 100 \<Longrightarrow> \<exists>a b. two_digits n = [a, b] \<and> \<not> isspace a"
  using digit_char_facts(2) [of "n div 10"] by (simp add: two_digits_def)

lemma scan_ws_space_two_digits:
  assumes "n < 100"
  shows "scan_ws (CHR '' '' # two_digits n @ rest) = two_digits n @ rest"
  using two_digits_head [OF assms] by (auto simp: scan_ws_def not_digit_facts)


lemma sscanf_dt_grammar_text:
  assumes "mo < 100" "dd < 100" "y < 10000" "h < 100" "mi < 100" "ss < 100"
  shows "sscanf_dt (grammar_text mo dd y h mi ss pm) =
     Some (word_of_nat mo, word_of_nat dd, word_of_nat y, word_of_nat h, word_of_nat mi,
           word_of_nat ss, if pm then ''PM'' else ''AM'')"
proof -
  have tok: "scan_s2 (scan_ws (CHR '' '' # (if pm then ''PM'' else ''AM'')))
      = Some (if pm then ''PM'' else ''AM'', [])"
    by (simp add: scan_s2_def scan_ws_def not_digit_facts)
  show ?thesis
    unfolding sscanf_dt_def grammar_text_def
    by (simp add: scan_u_two_digits [OF assms(1)] scan_u_two_digits [OF assms(2)]
        scan_u_four_digits [OF assms(3)] scan_u_two_digits [OF assms(4)]
        scan_u_two_digits [OF assms(5)] scan_u_two_digits [OF assms(6)]
        scan_ws_space_two_digits [OF assms(4)] not_digit_facts scan_lit_def tok
        del: append_assoc)
qed


lemma grammar_text_no_nul:
  assumes "mo < 100" "dd < 100" "y < 10000" "h < 100" "mi < 100" "ss < 100"
  shows "CHR 0x00 \<notin> set (grammar_text mo dd y h mi ss pm)"
  using two_digits_no_nul [OF assms(1)] two_digits_no_nul [OF assms(2)]
    four_digits_no_nul [OF assms(3)] two_digits_no_nul [OF assms(4)]
    two_digits_no_nul [OF assms(5)] two_digits_no_nul [OF assms(6)]
  by (simp add: grammar_text_def)

lemma length_grammar_text: "length (grammar_text mo dd y h mi ss pm) = 22"
  by (simp add: grammar_text_def two_digits_def four_digits_def)

lemma parse_grammar_text:
  assumes "mo < 100" "dd < 100" "y < 10000" "h < 100" "mi < 100" "ss < 100"
  shows "parse (grammar_text mo dd y h mi ss pm) =
     \<lparr>year = word_of_nat y, month = word_of_nat mo, day = word_of_nat dd,
      hour = to24h (word_of_nat h) pm, minute = word_of_nat mi, second = word_of_nat ss,
      valid = True\<rparr>"
  by (simp add: parse_def length_grammar_text c_str_no_nul [OF grammar_text_no_nul [OF assms]]
      sscanf_dt_grammar_text [OF assms] ucast_of_nat_32_16 ucast_of_nat_32_8 ampm0_def)

lemma dec_small: "n < 10 \<Longrightarrow> dec n = [digit_char n]"
  by (simp add: dec.simps)

lemma dec_two: "10 \<le> n \<Longrightarrow> n < 100 \<Longrightarrow> dec n = two_digits n"
  by (subst dec.simps) (simp add: dec_small two_digits_def)

lemma dec_three:
  "100 \<le> n \<Longrightarrow> n < 1000 \<Longrightarrow>
     dec n = [digit_char (n div 100), digit_char (n div 10 mod 10), digit_char (n mod 10)]"
  by (subst dec.simps) (simp add: dec_two two_digits_def div_mult2_eq [symmetric])

lemma dec_four: "1000 \<le> n \<Longrightarrow> n < 10000 \<Longrightarrow> dec n = four_digits n"
  by (subst dec.simps) (simp add: dec_three four_digits_def div_mult2_eq [symmetric])

lemma digit_char_0: "digit_char 0 = CHR ''0''"
  by (rule of_char_eqI [where ?'a = nat]) (simp add: of_char_digit_char)

lemma fmt_u_2: "n < 100 \<Longrightarrow> fmt_u 2 n = two_digits n"
  by (cases "n < 10") (simp_all add: fmt_u_def dec_small dec_two two_digits_def digit_char_0)

lemma replicate_2_3: "replicate 2 x = [x, x]" "replicate 3 x = [x, x, x]"
  by (simp_all add: numeral_2_eq_2 numeral_3_eq_3)

lemma fmt_u_4:
  assumes "n < 10000"
  shows "fmt_u 4 n = four_digits n"
proof -
  consider "n < 10" | "10 \<le> n" "n < 100" | "100 \<le> n" "n < 1000" | "1000 \<le> n"
    by linarith
  then show ?thesis
  proof cases
    case 1
    then show ?thesis
      by (simp add: fmt_u_def dec_small four_digits_def digit_char_0 replicate_2_3)
  next
    case 2
    then show ?thesis
      by (simp add: fmt_u_def dec_two four_digits_def two_digits_def digit_char_0 replicate_2_3)
  next
    case 3
    then show ?thesis
      by (simp add: fmt_u_def dec_three four_digits_def digit_char_0)
  next
    case 4
    then show ?thesis using assms
      by (simp add: fmt_u_def dec_four four_digits_def)
  qed
qed

lemma unat_of_nat_u8: "n < 256 \<Longrightarrow> unat (word_of_nat n :: u8) = n"
  by (simp add: unat_of_nat)

lemma unat_of_nat_u16: "n < 65536 \<Longrightarrow> unat (word_of_nat n :: u16) = n"
  by (simp add: unat_of_nat)


lemma w12: "((word_of_nat h :: u8) = 12) = (h = 12)" if "h \<le> 12"
proof
  assume "(word_of_nat h :: u8) = 12"
  then have "unat (word_of_nat h :: u8) = unat (12 :: u8)" by simp
  then show "h = 12" using that by (simp add: unat_of_nat)
next
  assume "h = 12" then show "(word_of_nat h :: u8) = 12" by simp
qed

lemma to24h_of_nat:
  assumes "h \<le> 12"
  shows "unat (to24h (word_of_nat h) pm) = hour24 h pm"
proof -
  have "unat (word_of_nat h + 12 :: u8) = h + 12"
    using assms unat_of_nat_u8 [of "h + 12"] by simp
  then show ?thesis
    using assms unat_of_nat_u8 [of h] by (simp add: to24h_def hour24_def w12 [OF assms])
qed

lemma toString_fields:
  assumes "y < 10000" "mo < 100" "dd < 100" "h < 100" "mi < 100" "ss < 100"
  shows "toString \<lparr>year = word_of_nat y, month = word_of_nat mo, day = word_of_nat dd,
       hour = word_of_nat h, minute = word_of_nat mi, second = word_of_nat ss, valid = True\<rparr>
     = canonical_text y mo dd h mi ss"
proof -
  have u: "unat (word_of_nat y :: u16) = y" "unat (word_of_nat mo :: u8) = mo"
    "unat (word_of_nat dd :: u8) = dd" "unat (word_of_nat h :: u8) = h"
    "unat (word_of_nat mi :: u8) = mi" "unat (word_of_nat ss :: u8) = ss"
    using assms by (simp_all add: unat_of_nat)
  have l: "length (canonical_text y mo dd h mi ss) = 19"
    by (simp add: canonical_text_def two_digits_def four_digits_def)
  have "toString \<lparr>year = word_of_nat y, month = word_of_nat mo, day = word_of_nat dd,
       hour = word_of_nat h, minute = word_of_nat mi, second = word_of_nat ss, valid = True\<rparr>
     = take 19 (canonical_text y mo dd h mi ss)"
    using assms by (simp add: toString_def u fmt_u_2 fmt_u_4 canonical_text_def)
  then show ?thesis using l by simp
qed

text \<open>
  Claim C5. For every text of the grammar \<^verbatim>\<open>MM/DD/YYYY HH:MM:SS AM|PM\<close> whose
  components are in range (month 1 to 12, day 1 to 31, year 0 to 9999, hour 1 to 12, minute
  and second 0 to 59), parsing and then rendering gives the canonical zero-padded text
  \<^verbatim>\<open>YYYY-MM-DD HH:MM:SS\<close> with the hour in 24-hour form. The witness is the spec's
  example: \<^verbatim>\<open>01/01/2015 12:00:00 AM\<close> renders as \<^verbatim>\<open>2015-01-01 00:00:00\<close>.
\<close>

theorem C5_parse_render_round_trip:
  assumes "1 \<le> mo" "mo \<le> 12" "1 \<le> dd" "dd \<le> 31" "y \<le> 9999"
    and "1 \<le> h" "h \<le> 12" "mi \<le> 59" "ss \<le> 59"
  shows "toString (parse (grammar_text mo dd y h mi ss pm)) =
           canonical_text y mo dd (hour24 h pm) mi ss"
proof -
  have b: "mo < 100" "dd < 100" "y < 10000" "h < 100" "mi < 100" "ss < 100"
    using assms by simp_all
  have h24: "hour24 h pm < 100"
    using assms by (simp add: hour24_def)
  have hw: "to24h (word_of_nat h) pm = (word_of_nat (hour24 h pm) :: u8)"
  proof -
    have "word_of_nat (unat (to24h (word_of_nat h) pm)) = to24h (word_of_nat h) pm"
      by simp
    then show ?thesis
      by (simp only: to24h_of_nat [OF assms(7), of pm])
  qed
  show ?thesis
    unfolding parse_grammar_text [OF b] hw
    by (rule toString_fields [OF b(3) b(1) b(2) h24 b(5) b(6)])
qed

theorem C5_parse_render_round_trip_witness:
  "grammar_text 1 1 2015 12 0 0 False = ''01/01/2015 12:00:00 AM'' \<and>
   toString (parse ''01/01/2015 12:00:00 AM'') = ''2015-01-01 00:00:00'' \<and>
   grammar_text 12 31 2015 11 59 59 True = ''12/31/2015 11:59:59 PM'' \<and>
   toString (parse ''12/31/2015 11:59:59 PM'') = ''2015-12-31 23:59:59''"
proof -
  have e: "digit_char k = c" if "k < 10" "(of_char c :: nat) = 48 + k" for k c
    using that by (metis of_char_digit_char of_char_eqI)
  have d: "digit_char 0 = CHR ''0''" "digit_char 1 = CHR ''1''" "digit_char 2 = CHR ''2''"
    "digit_char 3 = CHR ''3''" "digit_char 5 = CHR ''5''" "digit_char 9 = CHR ''9''"
    by (rule e; simp)+
  have d1: "digit_char (Suc 0) = CHR ''1''"
    using d(2) by simp
  have g1: "grammar_text 1 1 2015 12 0 0 False = ''01/01/2015 12:00:00 AM''"
    by (simp add: grammar_text_def two_digits_def four_digits_def d d1)
  have g2: "grammar_text 12 31 2015 11 59 59 True = ''12/31/2015 11:59:59 PM''"
    by (simp add: grammar_text_def two_digits_def four_digits_def d d1)
  have c1: "canonical_text 2015 1 1 (hour24 12 False) 0 0 = ''2015-01-01 00:00:00''"
    by (simp add: canonical_text_def hour24_def two_digits_def four_digits_def d d1)
  have c2: "canonical_text 2015 12 31 (hour24 11 True) 59 59 = ''2015-12-31 23:59:59''"
    by (simp add: canonical_text_def hour24_def two_digits_def four_digits_def d d1)
  have "toString (parse (grammar_text 1 1 2015 12 0 0 False)) =
          canonical_text 2015 1 1 (hour24 12 False) 0 0"
    by (rule C5_parse_render_round_trip) simp_all
  then have t1: "toString (parse ''01/01/2015 12:00:00 AM'') = ''2015-01-01 00:00:00''"
    by (simp only: g1 c1)
  have "toString (parse (grammar_text 12 31 2015 11 59 59 True)) =
          canonical_text 2015 12 31 (hour24 11 True) 59 59"
    by (rule C5_parse_render_round_trip) simp_all
  then have t2: "toString (parse ''12/31/2015 11:59:59 PM'') = ''2015-12-31 23:59:59''"
    by (simp only: g2 c2)
  show ?thesis
    using g1 g2 t1 t2 by blast
qed

section \<open>Bulk loaders\<close>

lemma fromFields_independent:
  "43 \<le> length f \<Longrightarrow> snd (fromFields sd r f) = snd (fromFields sd r' f)"
  by (cases r, cases r') (simp add: fromFields_def)

lemma fromFields_fst: "fst (fromFields sd r f) = (43 \<le> length f)"
  by (auto simp: fromFields_def)

lemma readAll_loop_step_blank: "readAll_loop sd ([] # rest) st = readAll_loop sd rest st"
  by simp

lemma readAll_loop_step_rejected:
  "line \<noteq> [] \<Longrightarrow> \<not> accepted line \<Longrightarrow>
     readAll_loop sd (line # rest) st =
       readAll_loop sd rest (st\<lparr>totalRows := totalRows st + 1, skippedRows := skippedRows st + 1\<rparr>)"
  by (simp add: accepted_def fromFields_def Let_def)

lemma readAll_loop_step_accepted:
  assumes "line \<noteq> []" "accepted line"
  shows "readAll_loop sd (line # rest) st =
       readAll_loop sd rest
         (st\<lparr>totalRows := totalRows st + 1, rec := recordOf sd line,
             out := out st @ [recordOf sd line]\<rparr>)"
proof -
  have a: "43 \<le> length (parseLine line)" using assms by (simp add: accepted_def)
  obtain ok r where f: "fromFields sd (rec st) (parseLine line) = (ok, r)"
    by (cases "fromFields sd (rec st) (parseLine line)")
  have ok: "ok" using fromFields_fst [of sd "rec st" "parseLine line"] a f by simp
  have r: "r = recordOf sd line"
    using fromFields_independent [OF a, of sd "rec st" ServiceRequest_default] f
    by (simp add: recordOf_def)
  show ?thesis
    using assms(1) f ok r by (simp add: Let_def)
qed

lemma readAll_loop_result:
  "out (readAll_loop sd ls st) = out st @ map (recordOf sd) [l \<leftarrow> ls. l \<noteq> [] \<and> accepted l] \<and>
   totalRows (readAll_loop sd ls st) = totalRows st + length [l \<leftarrow> ls. l \<noteq> []] \<and>
   skippedRows (readAll_loop sd ls st)
     = skippedRows st + length [l \<leftarrow> ls. l \<noteq> [] \<and> \<not> accepted l]"
proof (induction ls arbitrary: st)
  case Nil
  show ?case by simp
next
  case (Cons line rest)
  show ?case
  proof (cases "line = []")
    case True
    then show ?thesis using Cons.IH [of st] by simp
  next
    case ne: False
    show ?thesis
    proof (cases "accepted line")
      case True
      show ?thesis
        unfolding readAll_loop_step_accepted [OF ne True]
        using Cons.IH [of "st\<lparr>totalRows := totalRows st + 1, rec := recordOf sd line,
             out := out st @ [recordOf sd line]\<rparr>"] ne True
        by simp
    next
      case False
      show ?thesis
        unfolding readAll_loop_step_rejected [OF ne False]
        using Cons.IH [of "st\<lparr>totalRows := totalRows st + 1,
             skippedRows := skippedRows st + 1\<rparr>"] ne False
        by simp
    qed
  qed
qed

lemma loadData_loop_step_rejected:
  "\<not> acceptedCSV line \<Longrightarrow>
     loadData_loop sd (line # rest) st =
       loadData_loop sd rest (st\<lparr>lineCount := lineCount st + 1\<rparr>)"
  by (simp add: acceptedCSV_def fromFields_def Let_def)

lemma loadData_loop_step_accepted:
  "acceptedCSV line \<Longrightarrow>
     loadData_loop sd (line # rest) st =
       (let st2 = st\<lparr>lineCount := lineCount st + 1,
                     records := records st @ [recordOfCSV sd line],
                     validRecords := validRecords st + 1\<rparr>
        in if RECORD_LIMIT \<le> validRecords st2 then st2 else loadData_loop sd rest st2)"
  by (simp add: acceptedCSV_def recordOfCSV_def fromFields_def Let_def)

lemma loadData_loop_records:
  "validRecords st < RECORD_LIMIT \<Longrightarrow>
     records (loadData_loop sd ls st) =
       records st @ take (RECORD_LIMIT - validRecords st)
                      (map (recordOfCSV sd) [l \<leftarrow> ls. acceptedCSV l])"
proof (induction ls arbitrary: st)
  case Nil
  show ?case by simp
next
  case (Cons line rest)
  show ?case
  proof (cases "acceptedCSV line")
    case False
    show ?thesis
      unfolding loadData_loop_step_rejected [OF False]
      using Cons.IH [of "st\<lparr>lineCount := lineCount st + 1\<rparr>"] Cons.prems False
      by simp
  next
    case True
    let ?st2 = "st\<lparr>lineCount := lineCount st + 1,
                     records := records st @ [recordOfCSV sd line],
                     validRecords := validRecords st + 1\<rparr>"
    obtain k where k: "RECORD_LIMIT - validRecords st = Suc k"
      using Cons.prems by (metis Suc_diff_Suc)
    show ?thesis
    proof (cases "RECORD_LIMIT \<le> validRecords st + 1")
      case full: True
      then have "k = 0" using k Cons.prems by simp
      then show ?thesis
        unfolding loadData_loop_step_accepted [OF True]
        using full True k by (simp add: Let_def)
    next
      case more: False
      then have lt: "validRecords ?st2 < RECORD_LIMIT" by simp
      have k2: "RECORD_LIMIT - validRecords ?st2 = k" using k by simp
      show ?thesis
        unfolding loadData_loop_step_accepted [OF True]
        using more True Cons.IH [OF lt] k k2 by (simp add: Let_def)
    qed
  qed
qed


lemma RECORD_LIMIT_pos: "0 < RECORD_LIMIT"
  by (simp add: RECORD_LIMIT_def)

lemma readAll_result:
  "out (readAll sd (Some (header # ls))) = map (recordOf sd) [l \<leftarrow> ls. l \<noteq> [] \<and> accepted l] \<and>
   totalRows (readAll sd (Some (header # ls))) = length [l \<leftarrow> ls. l \<noteq> []] \<and>
   skippedRows (readAll sd (Some (header # ls))) = length [l \<leftarrow> ls. l \<noteq> [] \<and> \<not> accepted l]"
  using readAll_loop_result
    [of sd ls "\<lparr>rec = ServiceRequest_default, out = [], totalRows = 0, skippedRows = 0\<rparr>"]
  by (simp add: readAll_def)

lemma loadData_records:
  "records (loadData sd (Some (header # ls)))
     = take RECORD_LIMIT (map (recordOfCSV sd) [l \<leftarrow> ls. acceptedCSV l])"
  using loadData_loop_records
    [of "\<lparr>records = [], lineCount = 1, validRecords = 0\<rparr>" sd ls] RECORD_LIMIT_pos
  by (simp add: loadData_def)

text \<open>
  Claim C6, amended. \<^verbatim>\<open>CsvReader::readAll\<close> processes every line after the header to
  the end of the file: a blank line is skipped and counted neither as processed nor as
  malformed, every other line is counted as processed, a line that fails record population
  is counted as malformed and loading goes on, and the store holds the records of all
  accepted lines in file order; a file that cannot be opened yields no record. The free
  function \<^verbatim>\<open>loadData\<close> is not stopped by a rejected row either, but it stops once
  \<^verbatim>\<open>RECORD_LIMIT\<close> (16,000,000) records are stored: it stores the records of the first
  16,000,000 accepted lines.
\<close>

theorem C6_loaders_run_to_end_of_file:
  "out (readAll sd (Some (header # ls))) = map (recordOf sd) [l \<leftarrow> ls. l \<noteq> [] \<and> accepted l] \<and>
   totalRows (readAll sd (Some (header # ls))) = length [l \<leftarrow> ls. l \<noteq> []] \<and>
   skippedRows (readAll sd (Some (header # ls))) = length [l \<leftarrow> ls. l \<noteq> [] \<and> \<not> accepted l] \<and>
   out (readAll sd None) = [] \<and>
   records (loadData sd (Some (header # ls)))
     = take RECORD_LIMIT (map (recordOfCSV sd) [l \<leftarrow> ls. acceptedCSV l])"
  using readAll_result [of sd header ls] loadData_records [of sd header ls]
  by (simp add: readAll_def)

lemma acceptedCSV_commas: "acceptedCSV '',,,,,,,,,,,,,,,,,,,,,,,,,,,,,,,,,,,,,,,,,,''"
  by (simp add: acceptedCSV_def parseCSVLine_def cleanString_def)

text \<open>
  Claim C6 as stated fails for \<^verbatim>\<open>loadData\<close>: on a file with a header and 16,000,001
  lines of 42 commas (43 empty fields, each accepted), it stores 16,000,000 records and
  never reads the last line.
\<close>

theorem C6_record_limit_counterexample:
  "acceptedCSV '',,,,,,,,,,,,,,,,,,,,,,,,,,,,,,,,,,,,,,,,,,'' \<and>
   length [l \<leftarrow> replicate 16000001 '',,,,,,,,,,,,,,,,,,,,,,,,,,,,,,,,,,,,,,,,,,''. acceptedCSV l] = 16000001 \<and>
   length (records (loadData (\<lambda>s. (0 :: real, 0))
      (Some (''Unique Key,Created Date'' # replicate 16000001 '',,,,,,,,,,,,,,,,,,,,,,,,,,,,,,,,,,,,,,,,,,'')))) = 16000000"
proof -
  have f: "[l \<leftarrow> replicate 16000001 '',,,,,,,,,,,,,,,,,,,,,,,,,,,,,,,,,,,,,,,,,,''. acceptedCSV l] = replicate 16000001 '',,,,,,,,,,,,,,,,,,,,,,,,,,,,,,,,,,,,,,,,,,''"
    by (simp only: filter_replicate acceptedCSV_commas if_True)
  have r: "records (loadData (\<lambda>s. (0 :: real, 0))
      (Some (''Unique Key,Created Date'' # replicate 16000001 '',,,,,,,,,,,,,,,,,,,,,,,,,,,,,,,,,,,,,,,,,,'')))
     = take RECORD_LIMIT (map (recordOfCSV (\<lambda>s. (0 :: real, 0)))
         [l \<leftarrow> replicate 16000001 '',,,,,,,,,,,,,,,,,,,,,,,,,,,,,,,,,,,,,,,,,,''. acceptedCSV l])"
    by (rule loadData_records)
  have m: "min (16000001 :: nat) RECORD_LIMIT = 16000000"
    by (simp add: RECORD_LIMIT_def)
  show ?thesis
    by (simp only: r f length_take length_map length_replicate m acceptedCSV_commas simp_thms)
qed


theorem C6_loaders_run_to_end_of_file_witness:
  "length (out (readAll (\<lambda>s. (0 :: real, 0)) (Some [''Unique Key'', [], ''a,b'', '',,,,,,,,,,,,,,,,,,,,,,,,,,,,,,,,,,,,,,,,,,'']))) = 1 \<and>
   totalRows (readAll (\<lambda>s. (0 :: real, 0)) (Some [''Unique Key'', [], ''a,b'', '',,,,,,,,,,,,,,,,,,,,,,,,,,,,,,,,,,,,,,,,,,''])) = 2 \<and>
   skippedRows (readAll (\<lambda>s. (0 :: real, 0)) (Some [''Unique Key'', [], ''a,b'', '',,,,,,,,,,,,,,,,,,,,,,,,,,,,,,,,,,,,,,,,,,''])) = 1 \<and>
   length (records (loadData (\<lambda>s. (0 :: real, 0)) (Some [''Unique Key'', [], ''a,b'', '',,,,,,,,,,,,,,,,,,,,,,,,,,,,,,,,,,,,,,,,,,'']))) = 1"
proof -
  have a: "\<not> accepted ''a,b''" "accepted '',,,,,,,,,,,,,,,,,,,,,,,,,,,,,,,,,,,,,,,,,,''"
    by (simp_all add: accepted_def parseLine_def)
  have b: "\<not> acceptedCSV []" "\<not> acceptedCSV ''a,b''" "acceptedCSV '',,,,,,,,,,,,,,,,,,,,,,,,,,,,,,,,,,,,,,,,,,''"
    by (simp_all add: acceptedCSV_def parseCSVLine_def cleanString_def)
  show ?thesis
    using C6_loaders_run_to_end_of_file
      [of "\<lambda>s. (0 :: real, 0)" "''Unique Key''" "[[], ''a,b'', '',,,,,,,,,,,,,,,,,,,,,,,,,,,,,,,,,,,,,,,,,,'']"]
    by (simp add: a b RECORD_LIMIT_def)
qed

text \<open>
  \<^verbatim>\<open>loadData\<close> has no test for an empty line: a blank line is decoded to one empty
  field, rejected, and counted in \<^verbatim>\<open>lineCount\<close>, where \<^verbatim>\<open>readAll\<close> skips it.
\<close>

lemma loadData_counts_blank_line:
  "lineCount (loadData (\<lambda>s. (0 :: real, 0)) (Some [''Unique Key'', []])) = 2 \<and>
   totalRows (readAll (\<lambda>s. (0 :: real, 0)) (Some [''Unique Key'', []])) = 0"
  by (simp add: loadData_def readAll_def parseCSVLine_def cleanString_def fromFields_def)

end
